theory Spec2Isabelle
  imports Complex_Main "HOL-Library.Sublist"
begin

section \<open>Text as the backend handles it\<close>

text \<open>
  The backend (\<^verbatim>\<open>apps/backend/src/main.ts\<close>) works on JavaScript strings, which are
  sequences of UTF-16 code units. The development models a string as a \<^typ>\<open>string\<close>
  whose characters are read as the code units U+0000 to U+00FF; \<^const>\<open>length\<close> is then
  the \<^verbatim>\<open>.length\<close> of the source. Within that range the built-ins used by the source
  are the following.
\<close>

definition isWhiteSpace :: "char \<Rightarrow> bool" where
  \<comment> \<open>what \<^verbatim>\<open>trim()\<close> removes and \<^verbatim>\<open>\s\<close> matches: TAB, LF, VT, FF, CR, SP, NBSP\<close>
  "isWhiteSpace c = (c \<in> {CHR 0x09, CHR 0x0A, CHR 0x0B, CHR 0x0C, CHR 0x0D, CHR 0x20, CHR 0xA0})"

definition isDigit :: "char \<Rightarrow> bool" where
  \<comment> \<open>\<^verbatim>\<open>\d\<close>\<close>
  "isDigit c = (let n = (of_char c :: nat) in 48 \<le> n \<and> n \<le> 57)"

definition isWordChar :: "char \<Rightarrow> bool" where
  \<comment> \<open>\<^verbatim>\<open>\w\<close>, which decides where \<^verbatim>\<open>\b\<close> holds: letters, digits and the underscore\<close>
  "isWordChar c = (let n = (of_char c :: nat) in
     (48 \<le> n \<and> n \<le> 57) \<or> (65 \<le> n \<and> n \<le> 90) \<or> n = 95 \<or> (97 \<le> n \<and> n \<le> 122))"

definition toLowerChar :: "char \<Rightarrow> char" where
  \<comment> \<open>A-Z, and the upper-case letters of U+00C0..U+00DE (U+00D7 is the multiplication sign)\<close>
  "toLowerChar c = (let n = (of_char c :: nat) in
     if (65 \<le> n \<and> n \<le> 90) \<or> (192 \<le> n \<and> n \<le> 222 \<and> n \<noteq> 215) then char_of (n + 32) else c)"

definition toLowerCase :: "string \<Rightarrow> string" where
  "toLowerCase s = map toLowerChar s"

definition trim :: "string \<Rightarrow> string" where
  "trim s = rev (dropWhile isWhiteSpace (rev (dropWhile isWhiteSpace s)))"

fun startsWith :: "string \<Rightarrow> string \<Rightarrow> bool" where
  "startsWith s [] = True"
| "startsWith [] (p # ps) = False"
| "startsWith (c # cs) (p # ps) = (c = p \<and> startsWith cs ps)"

fun str_includes :: "string \<Rightarrow> string \<Rightarrow> bool" where
  \<comment> \<open>\<^verbatim>\<open>s.includes(p)\<close>\<close>
  "str_includes [] p = (p = [])"
| "str_includes (c # cs) p = (startsWith (c # cs) p \<or> str_includes cs p)"

fun split_on :: "char \<Rightarrow> string \<Rightarrow> string list" where
  \<comment> \<open>\<^verbatim>\<open>s.split(sep)\<close> for a separator of one character; the empty string gives one empty piece\<close>
  "split_on sep [] = [[]]"
| "split_on sep (c # cs) =
     (if c = sep then [] # split_on sep cs
      else (case split_on sep cs of [] \<Rightarrow> [[c]] | piece # pieces \<Rightarrow> (c # piece) # pieces))"

fun join_with :: "char \<Rightarrow> string list \<Rightarrow> string" where
  \<comment> \<open>\<^verbatim>\<open>pieces.join(sep)\<close>, against which \<^const>\<open>split_on\<close> is checked below\<close>
  "join_with sep [] = []"
| "join_with sep [p] = p"
| "join_with sep (p # q # ps) = p @ sep # join_with sep (q # ps)"

subsection \<open>The regular expressions of the fallback parser\<close>

text \<open>
  All four patterns are used with \<^verbatim>\<open>String.prototype.replace\<close> and without the
  \<^verbatim>\<open>g\<close> flag: the leftmost match is replaced, once. At one position the
  alternatives are tried in the order written. Under the \<^verbatim>\<open>i\<close> flag a character of
  the text matches a lower-case character of the pattern when its lower-case form does.
\<close>

fun match_label :: "string \<Rightarrow> string \<Rightarrow> string option" where
  \<comment> \<open>a label written in lower case, matched at the start of the text under \<^verbatim>\<open>/i\<close>;
      the result is the text after the label\<close>
  "match_label [] s = Some s"
| "match_label (p # ps) [] = None"
| "match_label (p # ps) (c # cs) =
     (if toLowerChar c = p then match_label ps cs else None)"

definition match_marker :: "string \<Rightarrow> string option" where
  \<comment> \<open>\<^verbatim>\<open>^\d+\.\<close> at the start of the text; the result is the text after the period\<close>
  "match_marker s =
     (case dropWhile isDigit s of
        [] \<Rightarrow> None
      | c # rest \<Rightarrow> (if takeWhile isDigit s \<noteq> [] \<and> c = CHR ''.'' then Some rest else None))"

fun match_first :: "string list \<Rightarrow> string \<Rightarrow> string option" where
  \<comment> \<open>the alternatives \<^verbatim>\<open>l1\s*|l2\s*|...\<close> at the start of the text, in order\<close>
  "match_first [] s = None"
| "match_first (l # ls) s =
     (case match_label l s of
        Some rest \<Rightarrow> Some (dropWhile isWhiteSpace rest)
      | None \<Rightarrow> match_first ls s)"

fun replace_labels :: "string list \<Rightarrow> string \<Rightarrow> string" where
  \<comment> \<open>\<^verbatim>\<open>s.replace(/l1\s*|l2\s*/i, '')\<close>\<close>
  "replace_labels ls [] = []"
| "replace_labels ls (c # cs) =
     (case match_first ls (c # cs) of
        Some rest \<Rightarrow> rest
      | None \<Rightarrow> c # replace_labels ls cs)"

fun replace_title_label :: "bool \<Rightarrow> string \<Rightarrow> string" where
  \<comment> \<open>the alternative \<^verbatim>\<open>\btitle:\s*\<close>, searched from the current position on; the flag
      says whether the character before the position is a word character\<close>
  "replace_title_label prevWord [] = []"
| "replace_title_label prevWord (c # cs) =
     (if prevWord \<noteq> isWordChar c then
        (case match_first [''title:''] (c # cs) of
           Some rest \<Rightarrow> rest
         | None \<Rightarrow> c # replace_title_label (isWordChar c) cs)
      else c # replace_title_label (isWordChar c) cs)"

definition replace_title :: "string \<Rightarrow> string" where
  \<comment> \<open>\<^verbatim>\<open>line.replace(/^\d+\.|\btitle:\s*/i, '')\<close>\<close>
  "replace_title line =
     (case match_marker line of
        Some rest \<Rightarrow> rest
      | None \<Rightarrow> replace_title_label False line)"

section \<open>The fallback parser\<close>

text \<open>
  \<^verbatim>\<open>currentBook\<close> is a \<^verbatim>\<open>Partial<BookRecommendation>\<close>: a field that was never
  assigned is absent, which is \<^const>\<open>None\<close> here. The cast
  \<^verbatim>\<open>currentBook as BookRecommendation\<close> changes nothing at run time, so the records of
  the result keep their absent fields.
\<close>

record BookRecommendation =
  title :: "string option"
  author :: "string option"
  reason :: "string option"
  genre :: "string option"

definition emptyBook :: BookRecommendation where
  "emptyBook = \<lparr>title = None, author = None, reason = None, genre = None\<rparr>"

definition truthy :: "string option \<Rightarrow> bool" where
  \<comment> \<open>\<^verbatim>\<open>if (currentBook.title)\<close>: the field is present and not the empty string\<close>
  "truthy v = (case v of None \<Rightarrow> False | Some s \<Rightarrow> s \<noteq> [])"

definition parse_line ::
  "BookRecommendation list \<times> BookRecommendation \<Rightarrow> string
     \<Rightarrow> BookRecommendation list \<times> BookRecommendation" where
  \<comment> \<open>one round of the loop over the lines; the state is the result list and \<^verbatim>\<open>currentBook\<close>\<close>
  "parse_line st line =
     (let found = fst st; currentBook = snd st; lowerLine = toLowerCase line in
      if str_includes lowerLine ''title:'' \<or> match_marker lowerLine \<noteq> None then
        (let st' = (if truthy (title currentBook) then (found @ [currentBook], emptyBook)
                    else (found, currentBook))
         in (fst st', (snd st')\<lparr>title := Some (trim (replace_title line))\<rparr>))
      else if str_includes lowerLine ''author:'' then
        (found, currentBook\<lparr>author := Some (trim (replace_labels [''author:''] line))\<rparr>)
      else if str_includes lowerLine ''reason:'' \<or> str_includes lowerLine ''why:'' then
        (found, currentBook\<lparr>reason := Some (trim (replace_labels [''reason:'', ''why:''] line))\<rparr>)
      else if str_includes lowerLine ''genre:'' then
        (found, currentBook\<lparr>genre := Some (trim (replace_labels [''genre:''] line))\<rparr>)
      else (found, currentBook))"

definition parseTextRecommendations :: "string \<Rightarrow> BookRecommendation list" where
  "parseTextRecommendations raw =
     (let lines = filter (\<lambda>line. trim line \<noteq> []) (split_on CHR 0x0A raw);
          st = foldl parse_line ([], emptyBook) lines
      in if truthy (title (snd st)) then fst st @ [snd st] else fst st)"

section \<open>Values decoded from JSON\<close>

text \<open>
  The request body and the decoded completion are values that \<^verbatim>\<open>JSON.parse\<close> built.
  A number is kept as the value its literal denotes; the run-time value is that value
  rounded to a binary64.
\<close>

datatype json =
    JNull
  | JBool bool
  | JNum rat
  | JStr string
  | JArr "json list"
  | JObj "(string \<times> json) list"

datatype js_error = SyntaxError | TypeError | Error string

definition member :: "json \<Rightarrow> string \<Rightarrow> js_error + json option" where
  \<comment> \<open>\<^verbatim>\<open>v.name\<close> for a name that no built-in prototype defines: reading a property of
      \<^verbatim>\<open>null\<close> throws, and \<^const>\<open>None\<close> is \<^verbatim>\<open>undefined\<close>\<close>
  "member v name =
     (case v of
        JNull \<Rightarrow> Inl TypeError
      | JObj props \<Rightarrow> Inr (map_of props name)
      | _ \<Rightarrow> Inr None)"

definition rounds_to_zero :: "rat \<Rightarrow> bool" where
  \<comment> \<open>the binary64 nearest to the value is zero: the least positive binary64 is \<open>1 / 2 ^ 1074\<close>,
      and a tie goes to the even neighbour, which is zero\<close>
  "rounds_to_zero q = (\<bar>q\<bar> \<le> 1 / 2 ^ 1075)"

fun falsy :: "json option \<Rightarrow> bool" where
  \<comment> \<open>\<^verbatim>\<open>!v\<close>\<close>
  "falsy None = True"
| "falsy (Some JNull) = True"
| "falsy (Some (JBool b)) = (\<not> b)"
| "falsy (Some (JNum q)) = rounds_to_zero q"
| "falsy (Some (JStr s)) = (s = [])"
| "falsy (Some (JArr items)) = False"
| "falsy (Some (JObj props)) = False"

fun isArray :: "json option \<Rightarrow> bool" where
  \<comment> \<open>\<^verbatim>\<open>Array.isArray(v)\<close>\<close>
  "isArray (Some (JArr items)) = True"
| "isArray v = False"

fun elements :: "json option \<Rightarrow> json list" where
  \<comment> \<open>the elements of an array; the source reads them only after \<^verbatim>\<open>Array.isArray\<close>\<close>
  "elements (Some (JArr items)) = items"
| "elements v = []"

text \<open>
  \<^verbatim>\<open>items.join(sep)\<close> converts every element that is not \<^verbatim>\<open>null\<close> to a string. The
  conversion of an object of JSON calls its \<^verbatim>\<open>toString\<close> and then its
  \<^verbatim>\<open>valueOf\<close>, skipping one that is not a function. An object with a member named
  \<^verbatim>\<open>toString\<close> hides the inherited function behind a value that is not one, and the
  inherited \<^verbatim>\<open>valueOf\<close> returns the object itself, so the conversion throws a
  \<^verbatim>\<open>TypeError\<close>. Any other object gives \<^verbatim>\<open>[object Object]\<close>, an array joins its own
  elements, and a string, a number or a boolean always has a string form.
\<close>

fun toString_throws :: "json \<Rightarrow> bool" where
  \<comment> \<open>the conversion of the value to a string throws\<close>
  "toString_throws (JObj props) = (map_of props ''toString'' \<noteq> None)"
| "toString_throws (JArr items) = list_ex toString_throws items"
| "toString_throws v = False"

definition join_throws :: "json list \<Rightarrow> bool" where
  \<comment> \<open>\<^verbatim>\<open>items.join(sep)\<close> throws\<close>
  "join_throws items = list_ex toString_throws items"

subsection \<open>A decoder for JSON text\<close>

text \<open>
  The handlers take \<^verbatim>\<open>JSON.parse\<close> as an argument, so what is proved about them holds
  for every decoder. \<open>JSON_parse\<close> below is the decoder the examples run. It reads a JSON
  text as the grammar defines it: the text is cut into tokens (the six structural
  characters, strings, numbers and the three literal names, with white space between
  them), and the tokens are read by an automaton with a stack of the arrays and objects
  that are open. A \<^verbatim>\<open>\u\<close> escape above U+00FF is outside the characters modelled here:
  on a text with such an escape \<open>JSON_parse\<close> gives \<^const>\<open>None\<close> where \<^verbatim>\<open>JSON.parse\<close>
  decodes the text. No example uses such a text, and no theorem about the handlers depends
  on \<open>JSON_parse\<close>.
\<close>

definition isJsonSpace :: "char \<Rightarrow> bool" where
  "isJsonSpace c = (c \<in> {CHR 0x20, CHR 0x09, CHR 0x0A, CHR 0x0D})"

definition hex_digit :: "char \<Rightarrow> nat option" where
  "hex_digit c = (let n = (of_char c :: nat) in
     if 48 \<le> n \<and> n \<le> 57 then Some (n - 48)
     else if 65 \<le> n \<and> n \<le> 70 then Some (n - 55)
     else if 97 \<le> n \<and> n \<le> 102 then Some (n - 87)
     else None)"

definition unescape :: "char \<Rightarrow> char option" where
  \<comment> \<open>the character after a backslash, \<^verbatim>\<open>u\<close> apart\<close>
  "unescape e =
     (if e = CHR 0x22 \<or> e = CHR 0x5C \<or> e = CHR ''/'' then Some e
      else if e = CHR ''b'' then Some (CHR 0x08)
      else if e = CHR ''f'' then Some (CHR 0x0C)
      else if e = CHR ''n'' then Some (CHR 0x0A)
      else if e = CHR ''r'' then Some (CHR 0x0D)
      else if e = CHR ''t'' then Some (CHR 0x09)
      else None)"

definition unicode_escape :: "string \<Rightarrow> (char \<times> string) option" where
  \<comment> \<open>the four hexadecimal digits after \<^verbatim>\<open>\u\<close>\<close>
  "unicode_escape s =
     (case s of
        a # b # c # d # rest \<Rightarrow>
          (case (hex_digit a, hex_digit b, hex_digit c, hex_digit d) of
             (Some h3, Some h2, Some h1, Some h0) \<Rightarrow>
               (if h3 = 0 \<and> h2 = 0 then Some (char_of (16 * h1 + h0), rest) else None)
           | _ \<Rightarrow> None)
      | _ \<Rightarrow> None)"

definition escape :: "string \<Rightarrow> (char \<times> string) option" where
  \<comment> \<open>the text after a backslash: the character it denotes, and the text after the escape\<close>
  "escape s =
     (case s of
        [] \<Rightarrow> None
      | e # cs \<Rightarrow>
          if e = CHR ''u'' then unicode_escape cs
          else map_option (\<lambda>ch. (ch, cs)) (unescape e))"

lemma escape_shorter: "escape s = Some (ch, rest) \<Longrightarrow> length rest < length s"
  by (auto simp: escape_def unicode_escape_def split: list.splits option.splits if_splits)

function parse_chars :: "string \<Rightarrow> (string \<times> string) option" where
  \<comment> \<open>a string after its opening quote: the characters, and the text after the closing quote\<close>
  "parse_chars [] = None"
| "parse_chars (c # cs) =
     (if c = CHR 0x22 then Some ([], cs)
      else if c = CHR 0x5C then
        (case escape cs of
           None \<Rightarrow> None
         | Some (ch, rest) \<Rightarrow> map_option (\<lambda>(str, r). (ch # str, r)) (parse_chars rest))
      else if (of_char c :: nat) < 32 then None
      else map_option (\<lambda>(str, r). (c # str, r)) (parse_chars cs))"
  by pat_completeness auto
termination
  by (relation "measure length") (auto dest: escape_shorter)

definition digits_value :: "string \<Rightarrow> nat" where
  "digits_value ds = foldl (\<lambda>a c. 10 * a + (of_char c - 48)) 0 ds"

definition parse_exponent :: "string \<Rightarrow> ((bool \<times> nat) \<times> string) option" where
  \<comment> \<open>an optional exponent part: whether it is negative, and its size\<close>
  "parse_exponent s =
     (case s of
        [] \<Rightarrow> Some ((False, 0), s)
      | e # r \<Rightarrow>
          if e = CHR ''e'' \<or> e = CHR ''E'' then
            (let neg = (case r of [] \<Rightarrow> False | g # r' \<Rightarrow> g = CHR ''-'');
                 r1 = (case r of [] \<Rightarrow> r | g # r' \<Rightarrow> if g = CHR ''-'' \<or> g = CHR ''+'' then r' else r);
                 ds = takeWhile isDigit r1
             in if ds = [] then None else Some ((neg, digits_value ds), dropWhile isDigit r1))
          else Some ((False, 0), s))"

definition parse_fraction :: "string \<Rightarrow> (string \<times> string) option" where
  \<comment> \<open>an optional fraction part: its digits\<close>
  "parse_fraction s =
     (case s of
        [] \<Rightarrow> Some ([], s)
      | d # r \<Rightarrow>
          if d = CHR ''.'' then
            (if takeWhile isDigit r = [] then None
             else Some (takeWhile isDigit r, dropWhile isDigit r))
          else Some ([], s))"

definition parse_number :: "string \<Rightarrow> (rat \<times> string) option" where
  "parse_number s =
     (let neg = (case s of [] \<Rightarrow> False | g # r \<Rightarrow> g = CHR ''-'');
          s1 = (if neg then drop 1 s else s);
          ds = takeWhile isDigit s1
      in if ds = [] \<or> (length ds > 1 \<and> startsWith ds ''0'') then None
         else
           (case parse_fraction (dropWhile isDigit s1) of
              None \<Rightarrow> None
            | Some (fs, s2) \<Rightarrow>
                (case parse_exponent s2 of
                   None \<Rightarrow> None
                 | Some ((eneg, e), s3) \<Rightarrow>
                     (let m = of_nat (digits_value (ds @ fs)) / 10 ^ length fs;
                          q = (if eneg then m / 10 ^ e else m * 10 ^ e)
                      in Some (if neg then - q else q, s3)))))"

datatype token =
  LeftBrace | RightBrace | LeftBracket | RightBracket | Colon | Comma | Scalar json

definition scan_token :: "string \<Rightarrow> (token \<times> string) option" where
  \<comment> \<open>the token at the start of the text, and the text after it\<close>
  "scan_token s =
     (case s of
        [] \<Rightarrow> None
      | c # cs \<Rightarrow>
          if c = CHR ''{'' then Some (LeftBrace, cs)
          else if c = CHR ''}'' then Some (RightBrace, cs)
          else if c = CHR ''['' then Some (LeftBracket, cs)
          else if c = CHR '']'' then Some (RightBracket, cs)
          else if c = CHR '':'' then Some (Colon, cs)
          else if c = CHR '','' then Some (Comma, cs)
          else if c = CHR 0x22 then
            map_option (\<lambda>(str, r). (Scalar (JStr str), r)) (parse_chars cs)
          else if startsWith s ''null'' then Some (Scalar JNull, drop 4 s)
          else if startsWith s ''true'' then Some (Scalar (JBool True), drop 4 s)
          else if startsWith s ''false'' then Some (Scalar (JBool False), drop 5 s)
          else map_option (\<lambda>(q, r). (Scalar (JNum q), r)) (parse_number s))"

lemma parse_chars_shorter: "parse_chars s = Some (str, rest) \<Longrightarrow> length rest < length s"
proof (induction s arbitrary: str rest rule: parse_chars.induct)
  case 1
  then show ?case by simp
next
  case (2 c cs)
  show ?case
  proof (cases "c = CHR 0x22")
    case True
    with "2.prems" show ?thesis by simp
  next
    case quote: False
    show ?thesis
    proof (cases "c = CHR 0x5C")
      case True
      with quote "2.prems" obtain ch rest0 str0 where
        esc: "escape cs = Some (ch, rest0)"
        and rec: "parse_chars rest0 = Some (str0, rest)"
        by (auto split: option.splits)
      have "length rest < length rest0"
        using "2.IH"(1) [OF quote True esc _ rec] by simp
      then show ?thesis
        using escape_shorter [OF esc] by simp
    next
      case False
      with quote "2.prems" obtain str0 where
        printable: "\<not> (of_char c :: nat) < 32"
        and rec: "parse_chars cs = Some (str0, rest)"
        by (auto split: if_splits)
      have "length rest < length cs"
        using "2.IH"(2) [OF quote False printable rec] .
      then show ?thesis by simp
    qed
  qed
qed

lemma parse_fraction_length: "parse_fraction s = Some (fs, r) \<Longrightarrow> length r \<le> length s"
  by (cases s) (auto simp: parse_fraction_def le_SucI length_dropWhile_le split: if_splits)

lemma parse_exponent_length: "parse_exponent s = Some (en, r) \<Longrightarrow> length r \<le> length s"
proof (cases s)
  case Nil
  then show "parse_exponent s = Some (en, r) \<Longrightarrow> length r \<le> length s"
    by (simp add: parse_exponent_def)
next
  case (Cons e s')
  assume parsed: "parse_exponent s = Some (en, r)"
  show "length r \<le> length s"
  proof (cases "e = CHR ''e'' \<or> e = CHR ''E''")
    case False
    with parsed Cons show ?thesis
      by (auto simp: parse_exponent_def)
  next
    case True
    define r1 where "r1 = (case s' of [] \<Rightarrow> s' | g # r' \<Rightarrow> if g = CHR ''-'' \<or> g = CHR ''+'' then r' else s')"
    have "r = dropWhile isDigit r1"
      using parsed Cons True by (auto simp: parse_exponent_def Let_def r1_def split: if_splits)
    moreover have "length r1 \<le> length s'"
      by (cases s') (simp_all add: r1_def)
    moreover have "length (dropWhile isDigit r1) \<le> length r1"
      by (rule length_dropWhile_le)
    ultimately show ?thesis
      using Cons by simp
  qed
qed

lemma parse_number_shorter: "parse_number s = Some (q, rest) \<Longrightarrow> length rest < length s"
proof -
  assume parsed: "parse_number s = Some (q, rest)"
  define s1 where "s1 = (if (case s of [] \<Rightarrow> False | g # r \<Rightarrow> g = CHR ''-'') then drop 1 s else s)"
  have digits: "takeWhile isDigit s1 \<noteq> []"
    using parsed by (auto simp: parse_number_def Let_def s1_def split: if_splits)
  obtain fs s2 en where
    fraction: "parse_fraction (dropWhile isDigit s1) = Some (fs, s2)"
    and exponent: "parse_exponent s2 = Some (en, rest)"
    using parsed
    by (auto simp: parse_number_def Let_def s1_def split: if_splits option.splits)
  have "length rest \<le> length s2"
    using exponent by (rule parse_exponent_length)
  moreover have "length s2 \<le> length (dropWhile isDigit s1)"
    using fraction by (rule parse_fraction_length)
  moreover have "length (takeWhile isDigit s1) + length (dropWhile isDigit s1) = length s1"
    by (metis length_append takeWhile_dropWhile_id)
  moreover have "0 < length (takeWhile isDigit s1)"
    using digits by simp
  moreover have "length s1 \<le> length s"
    by (simp add: s1_def)
  ultimately show ?thesis
    by linarith
qed

lemma scan_token_shorter: "scan_token s = Some (t, rest) \<Longrightarrow> length rest < length s"
  by (cases s)
     (auto simp: scan_token_def split: if_splits
           dest: parse_chars_shorter parse_number_shorter)

function tokenize :: "string \<Rightarrow> token list option" where
  "tokenize [] = Some []"
| "tokenize (c # cs) =
     (if isJsonSpace c then tokenize cs
      else
        (case scan_token (c # cs) of
           None \<Rightarrow> None
         | Some (t, rest) \<Rightarrow> map_option ((#) t) (tokenize rest)))"
  by pat_completeness auto
termination
  by (relation "measure length") (auto dest: scan_token_shorter)

fun put_member :: "string \<Rightarrow> json \<Rightarrow> (string \<times> json) list \<Rightarrow> (string \<times> json) list" where
  \<comment> \<open>a repeated name keeps its place and takes the later value\<close>
  "put_member k v [] = [(k, v)]"
| "put_member k v ((k', v') # ms) =
     (if k = k' then (k, v) # ms else (k', v') # put_member k v ms)"

datatype frame =
    InArray "json list"
  | InObject "(string \<times> json) list" string

datatype expect =
    AValue | AValueOrClose | AName | ANameOrClose | AColon | Done json

text \<open>
  A frame is an array that is open, with its elements so far, or an object that is open,
  with its members so far and the name of the member being read. The automaton expects a
  value, a value or \<^verbatim>\<open>]\<close> (after \<^verbatim>\<open>[\<close>), a name (after a comma in an object), a name
  or \<^verbatim>\<open>}\<close> (after \<^verbatim>\<open>{\<close>) or a colon, or it has a complete value in hand, which a comma
  or the closing character of the frame on top must follow.
\<close>

fun begin_value :: "frame list \<Rightarrow> token \<Rightarrow> (expect \<times> frame list) option" where
  "begin_value stack (Scalar v) = Some (Done v, stack)"
| "begin_value stack LeftBracket = Some (AValueOrClose, InArray [] # stack)"
| "begin_value stack LeftBrace = Some (ANameOrClose, InObject [] [] # stack)"
| "begin_value stack t = None"

fun step :: "expect \<Rightarrow> frame list \<Rightarrow> token \<Rightarrow> (expect \<times> frame list) option" where
  "step (Done v) (InArray acc # stack) Comma = Some (AValue, InArray (acc @ [v]) # stack)"
| "step (Done v) (InArray acc # stack) RightBracket = Some (Done (JArr (acc @ [v])), stack)"
| "step (Done v) (InObject ms name # stack) Comma =
     Some (AName, InObject (put_member name v ms) name # stack)"
| "step (Done v) (InObject ms name # stack) RightBrace =
     Some (Done (JObj (put_member name v ms)), stack)"
| "step (Done v) stack t = None"
| "step AColon stack Colon = Some (AValue, stack)"
| "step AColon stack t = None"
| "step AName (InObject ms name # stack) (Scalar (JStr k)) = Some (AColon, InObject ms k # stack)"
| "step AName stack t = None"
| "step ANameOrClose (InObject ms name # stack) (Scalar (JStr k)) =
     Some (AColon, InObject ms k # stack)"
| "step ANameOrClose (InObject ms name # stack) RightBrace = Some (Done (JObj ms), stack)"
| "step ANameOrClose stack t = None"
| "step AValueOrClose (InArray acc # stack) RightBracket = Some (Done (JArr acc), stack)"
| "step AValueOrClose stack t = begin_value stack t"
| "step AValue stack t = begin_value stack t"

fun parse_tokens :: "expect \<Rightarrow> frame list \<Rightarrow> token list \<Rightarrow> json option" where
  "parse_tokens (Done v) [] [] = Some v"
| "parse_tokens e stack [] = None"
| "parse_tokens e stack (t # ts) =
     (case step e stack t of
        None \<Rightarrow> None
      | Some (e', stack') \<Rightarrow> parse_tokens e' stack' ts)"

definition JSON_parse :: "string \<Rightarrow> json option" where
  "JSON_parse s =
     (case tokenize s of
        None \<Rightarrow> None
      | Some tokens \<Rightarrow> parse_tokens AValue [] tokens)"

section \<open>The completion service\<close>

text \<open>
  Each handler sends one request to \<^verbatim>\<open>openai.chat.completions.create\<close>. The request
  objects of the source are fixed up to the text spliced into the prompt, so a request is
  represented by what is spliced: the query of the suggestion prompt, or the books whose
  \<^verbatim>\<open>join(', ')\<close> the recommendation prompt embeds (the request is built only when the
  join does not throw). The call either fails (the promise
  rejects) or yields the \<^verbatim>\<open>message.content\<close> of each choice, which may be
  \<^verbatim>\<open>null\<close>. A handler returns the requests it sent together with its HTTP response.
\<close>

datatype completion_request = SuggestTitles string | RecommendBooks "json list"

datatype completion = Rejected | Choices "string option list"

datatype 'a http_response = Json 'a | ErrorStatus nat string

section \<open>Book suggestions\<close>

definition suggestions_of :: "string option \<Rightarrow> string list" where
  \<comment> \<open>\<^verbatim>\<open>content?.split('\n').filter(book => book.trim().length > 0).slice(0, 8) || []\<close>\<close>
  "suggestions_of content =
     (case content of
        None \<Rightarrow> []
      | Some s \<Rightarrow> take 8 (filter (\<lambda>book. length (trim book) > 0) (split_on CHR 0x0A s)))"

definition book_suggestions ::
  "(completion_request \<Rightarrow> completion) \<Rightarrow> string option
     \<Rightarrow> completion_request list \<times> string list http_response" where
  \<comment> \<open>\<^verbatim>\<open>GET /api/book-suggestions\<close>; the argument is \<^verbatim>\<open>req.query.q\<close>\<close>
  "book_suggestions create q =
     (let query = (case q of None \<Rightarrow> [] | Some s \<Rightarrow> s) in
      if length query < 2 then ([], Json [])
      else
        (let request = SuggestTitles query in
         case create request of
           Rejected \<Rightarrow> ([request], ErrorStatus 500 ''Failed to fetch book suggestions'')
         | Choices [] \<Rightarrow> ([request], ErrorStatus 500 ''Failed to fetch book suggestions'')
         | Choices (content # others) \<Rightarrow> ([request], Json (suggestions_of content))))"

section \<open>Book recommendations\<close>

text \<open>
  The declared type of \<^verbatim>\<open>recommendations\<close> is \<^verbatim>\<open>BookRecommendation[]\<close>, but the
  elements of a decoded array are taken as they are, so an entry of the response is either
  a decoded value or a record of the fallback parser.
\<close>

datatype recommendation = Decoded json | Extracted BookRecommendation

record RecommendationResponse =
  inputBooks :: "json list"
  recommendations :: "recommendation list"

definition decode_recommendations ::
  "(string \<Rightarrow> json option) \<Rightarrow> string \<Rightarrow> js_error + recommendation list" where
  \<comment> \<open>the \<^verbatim>\<open>try\<close> block around \<^verbatim>\<open>JSON.parse\<close>; the first argument is
      \<^verbatim>\<open>JSON.parse\<close>, with \<^const>\<open>None\<close> for a text it rejects\<close>
  "decode_recommendations jsonParse raw =
     (case jsonParse raw of
        None \<Rightarrow> Inl SyntaxError
      | Some parsed \<Rightarrow>
          (case member parsed ''recommendations'' of
             Inl e \<Rightarrow> Inl e
           | Inr field \<Rightarrow>
               if isArray field then Inr (map Decoded (elements field))
               else if isArray (Some parsed) then Inr (map Decoded (elements (Some parsed)))
               else Inl (Error ''Invalid response format from OpenAI'')))"

definition parse_completion :: "(string \<Rightarrow> json option) \<Rightarrow> string \<Rightarrow> recommendation list" where
  \<comment> \<open>the \<^verbatim>\<open>try\<close> with its \<^verbatim>\<open>catch\<close>: any error of the block leads to the fallback parser\<close>
  "parse_completion jsonParse raw =
     (case decode_recommendations jsonParse raw of
        Inr decoded \<Rightarrow> decoded
      | Inl parseError \<Rightarrow> map Extracted (parseTextRecommendations raw))"

definition content_text :: "string option \<Rightarrow> string" where
  \<comment> \<open>\<^verbatim>\<open>completion.choices[0].message.content || ''\<close>\<close>
  "content_text content = (case content of None \<Rightarrow> [] | Some s \<Rightarrow> s)"

definition recommend_books ::
  "(string \<Rightarrow> json option) \<Rightarrow> (completion_request \<Rightarrow> completion) \<Rightarrow> json option
     \<Rightarrow> completion_request list \<times> RecommendationResponse http_response" where
  \<comment> \<open>the handler of \<^verbatim>\<open>POST /api/recommend-books\<close> from the validation of \<^verbatim>\<open>books\<close> on;
      \<^verbatim>\<open>books.join(', ')\<close> stands inside the \<^verbatim>\<open>try\<close>, so when it throws the answer is the
      one of the \<^verbatim>\<open>catch\<close> and no request was sent\<close>
  "recommend_books jsonParse create books =
     (if falsy books \<or> \<not> isArray books \<or> length (elements books) = 0 then
        ([], ErrorStatus 400 ''Please provide at least one book in the books array'')
      else if length (elements books) > 10 then
        ([], ErrorStatus 400 ''Please provide no more than 10 books for better recommendations'')
      else if join_throws (elements books) then
        ([], ErrorStatus 500 ''Failed to get book recommendations. Please try again.'')
      else
        (let request = RecommendBooks (elements books) in
         case create request of
           Rejected \<Rightarrow>
             ([request], ErrorStatus 500 ''Failed to get book recommendations. Please try again.'')
         | Choices [] \<Rightarrow>
             ([request], ErrorStatus 500 ''Failed to get book recommendations. Please try again.'')
         | Choices (content # others) \<Rightarrow>
             ([request],
              Json \<lparr>inputBooks = elements books,
                    recommendations = take 5 (parse_completion jsonParse (content_text content))\<rparr>)))"

definition post_recommend_books ::
  "(string \<Rightarrow> json option) \<Rightarrow> (completion_request \<Rightarrow> completion) \<Rightarrow> json
     \<Rightarrow> completion_request list \<times> RecommendationResponse http_response" where
  \<comment> \<open>the whole handler: \<^verbatim>\<open>const { books } = req.body\<close> comes first, inside the \<^verbatim>\<open>try\<close>\<close>
  "post_recommend_books jsonParse create body =
     (case member body ''books'' of
        Inl e \<Rightarrow> ([], ErrorStatus 500 ''Failed to get book recommendations. Please try again.'')
      | Inr books \<Rightarrow> recommend_books jsonParse create books)"

section \<open>Checks of the text functions\<close>

text \<open>
  The functions on text are written to be run. The lemmas of this section relate them to
  what the built-ins of the source are specified to do: \<^verbatim>\<open>includes\<close> finds a
  substring, \<^verbatim>\<open>split\<close> cuts at every separator and is undone by \<^verbatim>\<open>join\<close>,
  \<^verbatim>\<open>trim\<close> leaves no white space at either end, and a label matches a prefix of the
  text whose lower-case form is the label.
\<close>

lemma startsWith_iff: "startsWith s p \<longleftrightarrow> (\<exists>post. s = p @ post)"
  by (induction s p rule: startsWith.induct) auto

lemma str_includes_iff: "str_includes s p \<longleftrightarrow> (\<exists>pre post. s = pre @ p @ post)"
proof (induction s)
  case Nil
  then show ?case by simp
next
  case (Cons c cs)
  show ?case
  proof
    assume "str_includes (c # cs) p"
    then consider "startsWith (c # cs) p" | "str_includes cs p"
      by auto
    then show "\<exists>pre post. c # cs = pre @ p @ post"
    proof cases
      case 1
      then obtain post where "c # cs = p @ post"
        by (auto simp: startsWith_iff)
      then have "c # cs = [] @ p @ post" by simp
      then show ?thesis by blast
    next
      case 2
      then obtain pre post where "cs = pre @ p @ post"
        using Cons.IH by blast
      then have "c # cs = (c # pre) @ p @ post" by simp
      then show ?thesis by blast
    qed
  next
    assume "\<exists>pre post. c # cs = pre @ p @ post"
    then obtain pre post where split: "c # cs = pre @ p @ post"
      by blast
    show "str_includes (c # cs) p"
    proof (cases pre)
      case Nil
      with split have "startsWith (c # cs) p"
        by (auto simp: startsWith_iff)
      then show ?thesis by simp
    next
      case (Cons a pre')
      with split have "cs = pre' @ p @ post" by simp
      then have "str_includes cs p"
        using Cons.IH by blast
      then show ?thesis by simp
    qed
  qed
qed

lemma split_on_nonempty: "split_on sep s \<noteq> []"
  by (induction s) (auto split: list.splits)

lemma split_on_pieces: "piece \<in> set (split_on sep s) \<Longrightarrow> sep \<notin> set piece"
proof (induction s arbitrary: piece)
  case Nil
  then show ?case by simp
next
  case (Cons c cs)
  show ?case
  proof (cases "c = sep")
    case True
    with Cons show ?thesis by auto
  next
    case False
    obtain p ps where ps: "split_on sep cs = p # ps"
      using split_on_nonempty [of sep cs] by (cases "split_on sep cs") auto
    with False Cons.prems have "piece = c # p \<or> piece \<in> set ps"
      by auto
    then show ?thesis
      using Cons.IH [of p] Cons.IH [of piece] ps False by auto
  qed
qed

lemma split_on_join: "join_with sep (split_on sep s) = s"
proof (induction s)
  case Nil
  then show ?case by simp
next
  case (Cons c cs)
  obtain p ps where ps: "split_on sep cs = p # ps"
    using split_on_nonempty [of sep cs] by (cases "split_on sep cs") auto
  show ?case
  proof (cases "c = sep")
    case True
    then show ?thesis using Cons ps by simp
  next
    case False
    then show ?thesis using Cons ps by (cases ps) auto
  qed
qed

lemma trim_prefix: "\<exists>dropped. dropWhile isWhiteSpace s = trim s @ dropped"
proof -
  let ?d = "dropWhile isWhiteSpace s"
  have "rev ?d = takeWhile isWhiteSpace (rev ?d) @ dropWhile isWhiteSpace (rev ?d)"
    by simp
  then have "rev (rev ?d) =
      rev (dropWhile isWhiteSpace (rev ?d)) @ rev (takeWhile isWhiteSpace (rev ?d))"
    by (metis rev_append)
  then show ?thesis
    by (auto simp: trim_def)
qed

lemma trim_no_leading: "trim s = c # cs \<Longrightarrow> \<not> isWhiteSpace c"
proof -
  assume t: "trim s = c # cs"
  obtain dropped where "dropWhile isWhiteSpace s = c # cs @ dropped"
    using trim_prefix [of s] t by auto
  then show ?thesis
    by (metis hd_dropWhile list.sel(1) list.simps(3))
qed

lemma trim_no_trailing: "trim s = cs @ [c] \<Longrightarrow> \<not> isWhiteSpace c"
proof -
  assume t: "trim s = cs @ [c]"
  let ?r = "dropWhile isWhiteSpace (rev (dropWhile isWhiteSpace s))"
  have "rev ?r = cs @ [c]"
    using t by (simp add: trim_def)
  then have "?r = c # rev cs"
    by (metis rev.simps(2) rev_rev_ident)
  then show ?thesis
    by (metis hd_dropWhile list.sel(1) list.simps(3))
qed

lemma match_label_iff:
  "match_label p s = Some rest \<longleftrightarrow> (\<exists>lab. s = lab @ rest \<and> toLowerCase lab = p)"
proof (induction p s rule: match_label.induct)
  case (1 s)
  then show ?case by (auto simp: toLowerCase_def)
next
  case (2 p ps)
  then show ?case by (auto simp: toLowerCase_def)
next
  case (3 p ps c cs)
  show ?case
  proof (cases "toLowerChar c = p")
    case True
    have "(\<exists>lab. c # cs = lab @ rest \<and> toLowerCase lab = p # ps) \<longleftrightarrow>
        (\<exists>lab'. cs = lab' @ rest \<and> toLowerCase lab' = ps)"
    proof
      assume "\<exists>lab. c # cs = lab @ rest \<and> toLowerCase lab = p # ps"
      then obtain lab where lab: "c # cs = lab @ rest" "toLowerCase lab = p # ps"
        by blast
      then obtain l lab' where "lab = l # lab'"
        by (cases lab) (auto simp: toLowerCase_def)
      with lab show "\<exists>lab'. cs = lab' @ rest \<and> toLowerCase lab' = ps"
        by (auto simp: toLowerCase_def)
    next
      assume "\<exists>lab'. cs = lab' @ rest \<and> toLowerCase lab' = ps"
      then obtain lab' where "cs = lab' @ rest" "toLowerCase lab' = ps"
        by blast
      then have "c # cs = (c # lab') @ rest \<and> toLowerCase (c # lab') = p # ps"
        using True by (simp add: toLowerCase_def)
      then show "\<exists>lab. c # cs = lab @ rest \<and> toLowerCase lab = p # ps"
        by blast
    qed
    then show ?thesis
      using True "3.IH" by simp
  next
    case False
    have "\<not> (\<exists>lab. c # cs = lab @ rest \<and> toLowerCase lab = p # ps)"
    proof
      assume "\<exists>lab. c # cs = lab @ rest \<and> toLowerCase lab = p # ps"
      then obtain lab where lab: "c # cs = lab @ rest" "toLowerCase lab = p # ps"
        by blast
      then obtain l lab' where "lab = l # lab'"
        by (cases lab) (auto simp: toLowerCase_def)
      with lab False show False
        by (auto simp: toLowerCase_def)
    qed
    then show ?thesis
      using False by simp
  qed
qed

section \<open>Properties of the fallback parser\<close>

lemma truthy_iff: "truthy v \<longleftrightarrow> (\<exists>t. v = Some t \<and> t \<noteq> [])"
  by (cases v) (simp_all add: truthy_def)

lemma parse_line_titles:
  assumes "\<forall>b \<in> set (fst st). truthy (title b)"
  shows "\<forall>b \<in> set (fst (parse_line st line)). truthy (title b)"
  using assms by (auto simp: parse_line_def Let_def)

lemma foldl_parse_line_titles:
  assumes "\<forall>b \<in> set (fst st). truthy (title b)"
  shows "\<forall>b \<in> set (fst (foldl parse_line st lines)). truthy (title b)"
  using assms
proof (induction lines arbitrary: st)
  case Nil
  then show ?case by simp
next
  case (Cons line lines)
  have "\<forall>b \<in> set (fst (parse_line st line)). truthy (title b)"
    using Cons.prems by (rule parse_line_titles)
  then show ?case
    using Cons.IH by simp
qed

text \<open>
  C5. The six lines \<^verbatim>\<open>1. Dune\<close>, \<^verbatim>\<open>Author: Frank Herbert\<close>, \<^verbatim>\<open>Reason: Epic scope\<close>,
  \<^verbatim>\<open>Genre: Sci-fi\<close>, \<^verbatim>\<open>2. Foundation\<close>, \<^verbatim>\<open>Author: Isaac Asimov\<close> give exactly two
  records: Dune with all four fields, and Foundation with its author, whose reason and
  genre were never set and are absent.
\<close>

theorem heuristic_parse_example:
  "parseTextRecommendations
     ''1. Dune\<newline>Author: Frank Herbert\<newline>Reason: Epic scope\<newline>Genre: Sci-fi\<newline>2. Foundation\<newline>Author: Isaac Asimov'' =
   [\<lparr>title = Some ''Dune'', author = Some ''Frank Herbert'',
      reason = Some ''Epic scope'', genre = Some ''Sci-fi''\<rparr>,
    \<lparr>title = Some ''Foundation'', author = Some ''Isaac Asimov'',
      reason = None, genre = None\<rparr>]"
  by code_simp

text \<open>
  C2. Every record that the fallback parser returns has a title, and the title is not
  the empty string: a record is pushed only when its title is set and non-empty, so one
  whose title was never captured does not reach the result.
\<close>

theorem parsed_titles_nonempty:
  "\<forall>b \<in> set (parseTextRecommendations raw). \<exists>t. title b = Some t \<and> t \<noteq> []"
proof -
  define lines where "lines = filter (\<lambda>line. trim line \<noteq> []) (split_on CHR 0x0A raw)"
  define st where "st = foldl parse_line ([], emptyBook) lines"
  have found: "\<forall>b \<in> set (fst st). truthy (title b)"
    unfolding st_def by (rule foldl_parse_line_titles) simp
  have "\<forall>b \<in> set (parseTextRecommendations raw). truthy (title b)"
    using found by (auto simp: parseTextRecommendations_def Let_def lines_def st_def)
  then show ?thesis
    by (simp add: truthy_iff)
qed

theorem parsed_titles_nonempty_witness:
  "\<exists>b \<in> set (parseTextRecommendations ''Author: Frank Herbert\<newline>1. Dune\<newline>Genre:'').
     title b = Some ''Dune'' \<and> (\<exists>t. title b = Some t \<and> t \<noteq> [])"
proof -
  have "parseTextRecommendations ''Author: Frank Herbert\<newline>1. Dune\<newline>Genre:'' =
      [\<lparr>title = Some ''Dune'', author = Some ''Frank Herbert'', reason = None, genre = Some []\<rparr>]"
    by code_simp
  then show ?thesis
    using parsed_titles_nonempty [of "''Author: Frank Herbert\<newline>1. Dune\<newline>Genre:''"] by simp
qed

text \<open>
  C6. The claim says that a title line loses its numeric marker and its \<^verbatim>\<open>title:\<close>
  label, both when it carries both. The pattern \<^verbatim>\<open>/^\d+\.|\btitle:\s*/i\<close> is applied
  once: a line with only a marker or only a label is stripped as claimed, but on
  \<^verbatim>\<open>1. Title: Dune\<close> only the marker goes and the label stays in the title.
\<close>

theorem numbered_title_line_keeps_label:
  "parseTextRecommendations ''1. Title: Dune'' =
     [\<lparr>title = Some ''Title: Dune'', author = None, reason = None, genre = None\<rparr>]
   \<and> parseTextRecommendations ''1. Dune'' =
     [\<lparr>title = Some ''Dune'', author = None, reason = None, genre = None\<rparr>]
   \<and> parseTextRecommendations ''Title: Dune'' =
     [\<lparr>title = Some ''Dune'', author = None, reason = None, genre = None\<rparr>]"
  by code_simp

section \<open>Properties of the suggestion handler\<close>

lemma trim_Nil: "trim [] = []"
  by (simp add: trim_def)

lemma suggestions_of_length: "length (suggestions_of content) \<le> 8"
  by (cases content) (simp_all add: suggestions_of_def)

lemma suggestions_of_nonblank: "e \<in> set (suggestions_of content) \<Longrightarrow> trim e \<noteq> []"
  by (cases content) (auto simp: suggestions_of_def dest: in_set_takeD)

lemma suggestions_of_subseq: "subseq (suggestions_of (Some raw)) (split_on CHR 0x0A raw)"
proof -
  let ?kept = "filter (\<lambda>book. length (trim book) > 0) (split_on CHR 0x0A raw)"
  have "subseq (take 8 ?kept) ?kept"
    by (rule sublist_imp_subseq) (rule sublist_take)
  moreover have "subseq ?kept (split_on CHR 0x0A raw)"
    by (rule subseq_filter_left)
  ultimately have "subseq (take 8 ?kept) (split_on CHR 0x0A raw)"
    by (rule subseq_order.trans)
  then show ?thesis
    by (simp add: suggestions_of_def)
qed

text \<open>
  C8. A query of fewer than two characters, the empty string and an absent query
  included, is answered with the empty list, and no request is sent to the completion
  service.
\<close>

theorem short_query_returns_empty:
  assumes "length query < 2"
  shows "book_suggestions create (Some query) = ([], Json [])
       \<and> book_suggestions create None = ([], Json [])"
  using assms by (simp add: book_suggestions_def)

theorem short_query_returns_empty_witness:
  "book_suggestions (\<lambda>request. Choices [Some ''Anna Karenina'']) (Some ''a'') = ([], Json [])"
  using short_query_returns_empty [of "''a''" "\<lambda>request. Choices [Some ''Anna Karenina'']"]
  by simp

text \<open>
  C7, as amended. For every completion text the suggestion handler answers with at most
  8 entries: the lines of the text, split at newlines, that are not blank, in their
  order, cut after the eighth. Each entry has a character that is not white space. The
  entries are the lines as they stand: the handler trims a line only to test it, so an
  entry keeps its leading and trailing white space.
\<close>

theorem suggestions_are_nonblank_lines:
  assumes "2 \<le> length query"
      and "create (SuggestTitles query) = Choices (content # others)"
  shows "\<exists>entries.
      book_suggestions create (Some query) = ([SuggestTitles query], Json entries)
    \<and> length entries \<le> 8
    \<and> (\<forall>e \<in> set entries. e \<noteq> [] \<and> trim e \<noteq> [])
    \<and> (case content of
         None \<Rightarrow> entries = []
       | Some raw \<Rightarrow>
           entries = take 8 (filter (\<lambda>line. trim line \<noteq> []) (split_on CHR 0x0A raw))
         \<and> subseq entries (split_on CHR 0x0A raw))"
proof -
  have "book_suggestions create (Some query) =
      ([SuggestTitles query], Json (suggestions_of content))"
    using assms by (simp add: book_suggestions_def)
  moreover have "\<forall>e \<in> set (suggestions_of content). e \<noteq> [] \<and> trim e \<noteq> []"
    using suggestions_of_nonblank trim_Nil by blast
  moreover have "case content of
      None \<Rightarrow> suggestions_of content = []
    | Some raw \<Rightarrow>
        suggestions_of content =
          take 8 (filter (\<lambda>line. trim line \<noteq> []) (split_on CHR 0x0A raw))
      \<and> subseq (suggestions_of content) (split_on CHR 0x0A raw)"
    using suggestions_of_subseq by (cases content) (simp_all add: suggestions_of_def)
  ultimately show ?thesis
    using suggestions_of_length by blast
qed

theorem suggestions_are_nonblank_lines_witness:
  "book_suggestions (\<lambda>request. Choices [Some ''Harry Potter\<newline>  \<newline>Harry and the...''])
     (Some ''harry'') =
   ([SuggestTitles ''harry''], Json [''Harry Potter'', ''Harry and the...''])"
proof -
  let ?raw = "''Harry Potter\<newline>  \<newline>Harry and the...''"
  have kept: "take 8 (filter (\<lambda>line. trim line \<noteq> []) (split_on CHR 0x0A ?raw)) =
      [''Harry Potter'', ''Harry and the...'']"
    by code_simp
  have "2 \<le> length ''harry''"
    by simp
  moreover have "(\<lambda>request. Choices [Some ?raw]) (SuggestTitles ''harry'') = Choices (Some ?raw # [])"
    by simp
  ultimately obtain entries where
    "book_suggestions (\<lambda>request. Choices [Some ?raw]) (Some ''harry'') =
       ([SuggestTitles ''harry''], Json entries)"
    and "case Some ?raw of
         None \<Rightarrow> entries = []
       | Some raw \<Rightarrow>
           entries = take 8 (filter (\<lambda>line. trim line \<noteq> []) (split_on CHR 0x0A raw))
         \<and> subseq entries (split_on CHR 0x0A raw)"
    using suggestions_are_nonblank_lines
      [where query = "''harry''" and create = "\<lambda>request. Choices [Some ?raw]"
         and content = "Some ?raw" and others = "[]"]
    by blast
  then show ?thesis
    by (simp only: option.case kept)
qed

text \<open>
  C7 as stated fails: the claim has every entry trimmed. For the completion text made of
  the two lines \<^verbatim>\<open> Dune\<close> and \<^verbatim>\<open>Emma \<close> the handler returns both lines with their
  white space.
\<close>

theorem suggestions_are_not_trimmed:
  "book_suggestions (\<lambda>request. Choices [Some '' Dune\<newline>Emma '']) (Some ''du'') =
     ([SuggestTitles ''du''], Json ['' Dune'', ''Emma ''])
   \<and> trim '' Dune'' \<noteq> '' Dune''
   \<and> trim ''Emma '' \<noteq> ''Emma ''"
  by code_simp

section \<open>Properties of the recommendation handler\<close>

lemma isArray_iff: "isArray v \<longleftrightarrow> (\<exists>items. v = Some (JArr items))"
  by (cases v rule: isArray.cases) simp_all

lemma recommend_books_join_throws:
  assumes "bs \<noteq> []" and "length bs \<le> 10" and "join_throws bs"
  shows "recommend_books jsonParse create (Some (JArr bs)) =
     ([], ErrorStatus 500 ''Failed to get book recommendations. Please try again.'')"
  using assms by (simp add: recommend_books_def)

lemma recommend_books_toString_member:
  "recommend_books jsonParse create (Some (JArr [JObj [(''toString'', JNum 1)]])) =
     ([], ErrorStatus 500 ''Failed to get book recommendations. Please try again.'')"
  by (simp add: recommend_books_def join_throws_def)

lemma recommend_books_valid:
  assumes "bs \<noteq> []" and "length bs \<le> 10" and "\<not> join_throws bs"
  shows "recommend_books jsonParse create (Some (JArr bs)) =
     (case create (RecommendBooks bs) of
        Choices (content # others) \<Rightarrow>
          ([RecommendBooks bs],
           Json \<lparr>inputBooks = bs,
                 recommendations = take 5 (parse_completion jsonParse (content_text content))\<rparr>)
      | _ \<Rightarrow>
          ([RecommendBooks bs],
           ErrorStatus 500 ''Failed to get book recommendations. Please try again.''))"
  using assms by (simp add: recommend_books_def split: completion.splits list.splits)

lemma recommend_books_answer:
  assumes "bs \<noteq> []" and "length bs \<le> 10" and "\<not> join_throws bs"
      and "create (RecommendBooks bs) = Choices (content # others)"
  shows "recommend_books jsonParse create (Some (JArr bs)) =
     ([RecommendBooks bs],
      Json \<lparr>inputBooks = bs,
            recommendations = take 5 (parse_completion jsonParse (content_text content))\<rparr>)"
  using assms by (simp add: recommend_books_valid)

lemma recommend_books_invalid:
  assumes "\<not> (\<exists>bs. books = Some (JArr bs) \<and> bs \<noteq> [] \<and> length bs \<le> 10)"
  shows "fst (recommend_books jsonParse create books) = []"
    and "\<exists>msg. snd (recommend_books jsonParse create books) = ErrorStatus 400 msg"
proof -
  have "\<not> isArray books \<or> elements books = [] \<or> 10 < length (elements books)"
  proof (cases "isArray books")
    case True
    then obtain items where "books = Some (JArr items)"
      by (auto simp: isArray_iff)
    with assms show ?thesis
      by auto
  next
    case False
    then show ?thesis by simp
  qed
  then show "fst (recommend_books jsonParse create books) = []"
    and "\<exists>msg. snd (recommend_books jsonParse create books) = ErrorStatus 400 msg"
    by (auto simp: recommend_books_def)
qed

lemma parse_completion_structured:
  assumes "jsonParse raw = Some (JObj props)"
      and "map_of props ''recommendations'' = Some (JArr items)"
  shows "parse_completion jsonParse raw = map Decoded items"
  using assms by (simp add: parse_completion_def decode_recommendations_def member_def)

lemma parse_completion_fallback:
  assumes "jsonParse raw = Some parsed"
      and "\<forall>items. parsed \<noteq> JArr items"
      and "\<forall>props items. parsed = JObj props \<longrightarrow>
             map_of props ''recommendations'' \<noteq> Some (JArr items)"
  shows "parse_completion jsonParse raw = map Extracted (parseTextRecommendations raw)"
proof -
  have field: "\<not> isArray (case member parsed ''recommendations'' of
                              Inl e \<Rightarrow> None | Inr field \<Rightarrow> field)"
    using assms(3) by (cases parsed) (simp_all add: member_def isArray_iff)
  have whole: "\<not> isArray (Some parsed)"
    using assms(2) by (simp add: isArray_iff)
  show ?thesis
    using field whole assms(1)
    by (cases "member parsed ''recommendations''")
       (simp_all add: parse_completion_def decode_recommendations_def)
qed

lemma parseTextRecommendations_Nil: "parseTextRecommendations [] = []"
  by code_simp

lemma post_recommend_books_object:
  "post_recommend_books jsonParse create (JObj props) =
     recommend_books jsonParse create (map_of props ''books'')"
  by (simp add: post_recommend_books_def member_def)

lemma post_recommend_books_null:
  "post_recommend_books jsonParse create JNull =
     ([], ErrorStatus 500 ''Failed to get book recommendations. Please try again.'')"
  by (simp add: post_recommend_books_def member_def)

text \<open>
  C9. The handler answers with the validation error (status 400) exactly when
  \<^verbatim>\<open>books\<close> is missing, is not an array, is the empty array or has more than 10
  entries. In each of these cases no request is sent to the completion service and the
  answer is not a \<^verbatim>\<open>RecommendationResponse\<close>.
\<close>

theorem validation_error_iff:
  "((\<exists>msg. snd (recommend_books jsonParse create books) = ErrorStatus 400 msg) \<longleftrightarrow>
      (books = None \<or> (\<forall>items. books \<noteq> Some (JArr items)) \<or> books = Some (JArr []) \<or>
       (\<exists>items. books = Some (JArr items) \<and> 10 < length items)))
   \<and> ((books = None \<or> (\<forall>items. books \<noteq> Some (JArr items)) \<or> books = Some (JArr []) \<or>
        (\<exists>items. books = Some (JArr items) \<and> 10 < length items)) \<longrightarrow>
         fst (recommend_books jsonParse create books) = [] \<and>
         (\<forall>response. snd (recommend_books jsonParse create books) \<noteq> Json response))"
proof (cases "\<exists>bs. books = Some (JArr bs) \<and> bs \<noteq> [] \<and> length bs \<le> 10")
  case True
  then obtain bs where bs: "books = Some (JArr bs)" "bs \<noteq> []" "length bs \<le> 10"
    by blast
  have "\<forall>msg. snd (recommend_books jsonParse create books) \<noteq> ErrorStatus 400 msg"
  proof (cases "join_throws bs")
    case True
    then show ?thesis
      unfolding bs(1) by (simp add: recommend_books_join_throws [OF bs(2,3)])
  next
    case False
    show ?thesis
      unfolding bs(1) recommend_books_valid [OF bs(2,3) False]
      by (simp split: completion.splits list.splits)
  qed
  then show ?thesis
    using bs by auto
next
  case False
  note invalid = recommend_books_invalid [OF False, of jsonParse create]
  have "books = None \<or> (\<forall>items. books \<noteq> Some (JArr items)) \<or> books = Some (JArr []) \<or>
       (\<exists>items. books = Some (JArr items) \<and> 10 < length items)"
    using False by (metis not_le_imp_less)
  then show ?thesis
    using invalid by auto
qed

theorem validation_error_iff_witness:
  "(\<exists>msg. snd (recommend_books JSON_parse (\<lambda>request. Choices [Some ''{}''])
       (Some (JArr (replicate 11 (JStr ''Dune''))))) = ErrorStatus 400 msg)
   \<and> fst (recommend_books JSON_parse (\<lambda>request. Choices [Some ''{}''])
       (Some (JArr (replicate 11 (JStr ''Dune''))))) = []
   \<and> (\<nexists>msg. snd (recommend_books JSON_parse (\<lambda>request. Choices [Some ''{}''])
       (Some (JArr [JStr ''Dune'']))) = ErrorStatus 400 msg)"
proof -
  let ?create = "\<lambda>request :: completion_request. Choices [Some ''{}'']"
  let ?eleven = "Some (JArr (replicate 11 (JStr ''Dune'')))"
  let ?one = "Some (JArr [JStr ''Dune''])"
  have "\<exists>items. ?eleven = Some (JArr items) \<and> 10 < length items"
    by simp
  then have "(\<exists>msg. snd (recommend_books JSON_parse ?create ?eleven) = ErrorStatus 400 msg)
      \<and> fst (recommend_books JSON_parse ?create ?eleven) = []"
    using validation_error_iff [of JSON_parse ?create ?eleven] by blast
  moreover have "\<not> (?one = None \<or> (\<forall>items. ?one \<noteq> Some (JArr items)) \<or> ?one = Some (JArr []) \<or>
       (\<exists>items. ?one = Some (JArr items) \<and> 10 < length items))"
    by simp
  then have "\<nexists>msg. snd (recommend_books JSON_parse ?create ?one) = ErrorStatus 400 msg"
    using validation_error_iff [of JSON_parse ?create ?one] by blast
  ultimately show ?thesis
    by blast
qed

text \<open>
  C1. For a request that passes the validation and whose books can be joined into the
  prompt (the requests that get a response at all), whatever text the completion carries,
  the response of the recommendation handler holds at most 5 recommendations, and they
  are the first entries of what the parse step produced, in the same order. In particular, when the text decodes to an object whose
  \<^verbatim>\<open>recommendations\<close> is an array of more than 5 entries, the response holds exactly
  its first 5 entries in their order.
\<close>

theorem recommendations_at_most_five:
  assumes "bs \<noteq> []" and "length bs \<le> 10" and "\<not> join_throws bs"
      and "create (RecommendBooks bs) = Choices (content # others)"
  shows "\<exists>response.
      snd (recommend_books jsonParse create (Some (JArr bs))) = Json response
    \<and> length (recommendations response) \<le> 5
    \<and> recommendations response = take 5 (parse_completion jsonParse (content_text content))
    \<and> prefix (recommendations response) (parse_completion jsonParse (content_text content))
    \<and> (\<forall>props items.
          jsonParse (content_text content) = Some (JObj props)
          \<longrightarrow> map_of props ''recommendations'' = Some (JArr items)
          \<longrightarrow> 5 < length items
          \<longrightarrow> recommendations response = map Decoded (take 5 items)
              \<and> length (recommendations response) = 5)"
proof -
  let ?parsed = "parse_completion jsonParse (content_text content)"
  let ?response = "\<lparr>inputBooks = bs, recommendations = take 5 ?parsed\<rparr>"
  have "snd (recommend_books jsonParse create (Some (JArr bs))) = Json ?response"
    using assms by (simp add: recommend_books_answer)
  moreover have "length (recommendations ?response) \<le> 5"
    by simp
  moreover have "prefix (recommendations ?response) ?parsed"
    by (simp add: take_is_prefix)
  moreover have "recommendations ?response = map Decoded (take 5 items)
         \<and> length (recommendations ?response) = 5"
    if "jsonParse (content_text content) = Some (JObj props)"
      and "map_of props ''recommendations'' = Some (JArr items)"
      and "5 < length items" for props items
    using that by (simp add: parse_completion_structured take_map)
  ultimately show ?thesis
    by (intro exI [of _ ?response]) simp
qed

theorem recommendations_at_most_five_witness:
  \<open>\<exists>response.
     snd (recommend_books JSON_parse
       (\<lambda>request. Choices [Some ''{"recommendations": ["A", "B", "C", "D", "E", "F", "G"]}''])
       (Some (JArr [JStr ''Dune'']))) = Json response
   \<and> recommendations response =
       [Decoded (JStr ''A''), Decoded (JStr ''B''), Decoded (JStr ''C''),
        Decoded (JStr ''D''), Decoded (JStr ''E'')]\<close>
proof -
  let ?raw = \<open>''{"recommendations": ["A", "B", "C", "D", "E", "F", "G"]}''\<close>
  let ?create = "\<lambda>request :: completion_request. Choices [Some ?raw]"
  let ?items = "[JStr ''A'', JStr ''B'', JStr ''C'', JStr ''D'', JStr ''E'', JStr ''F'', JStr ''G'']"
  have decoded: "JSON_parse (content_text (Some ?raw)) = Some (JObj [(''recommendations'', JArr ?items)])"
    by code_simp
  have field: "map_of [(''recommendations'', JArr ?items)] ''recommendations'' = Some (JArr ?items)"
    by simp
  have more: "5 < length ?items"
    by simp
  have books: "[JStr ''Dune''] \<noteq> []" "length [JStr ''Dune''] \<le> 10"
    "\<not> join_throws [JStr ''Dune'']"
    by (simp_all add: join_throws_def)
  have answer: "?create (RecommendBooks [JStr ''Dune'']) = Choices (Some ?raw # [])"
    by simp
  obtain response where
    response: "snd (recommend_books JSON_parse ?create (Some (JArr [JStr ''Dune'']))) = Json response"
    and first: "\<forall>props items.
          JSON_parse (content_text (Some ?raw)) = Some (JObj props)
          \<longrightarrow> map_of props ''recommendations'' = Some (JArr items)
          \<longrightarrow> 5 < length items
          \<longrightarrow> recommendations response = map Decoded (take 5 items)
              \<and> length (recommendations response) = 5"
    using recommendations_at_most_five
      [where bs = "[JStr ''Dune'']" and create = "?create" and content = "Some ?raw"
         and others = "[]" and jsonParse = JSON_parse, OF books answer]
    by blast
  have "recommendations response = map Decoded (take 5 ?items)"
    using first decoded field more by blast
  then have "recommendations response =
      [Decoded (JStr ''A''), Decoded (JStr ''B''), Decoded (JStr ''C''),
       Decoded (JStr ''D''), Decoded (JStr ''E'')]"
    by simp
  with response show ?thesis
    by blast
qed

text \<open>
  C3. When the text decodes to an object whose \<^verbatim>\<open>recommendations\<close> is an array of at
  most 5 entries, the parse step returns exactly these entries, each as it was decoded,
  and the cut to 5 entries keeps them all.
\<close>

theorem structured_recommendations_unchanged:
  assumes "jsonParse raw = Some (JObj props)"
      and "map_of props ''recommendations'' = Some (JArr items)"
      and "length items \<le> 5"
  shows "parse_completion jsonParse raw = map Decoded items
       \<and> take 5 (parse_completion jsonParse raw) = map Decoded items"
  using assms by (simp add: parse_completion_structured)

theorem structured_recommendations_unchanged_witness:
  \<open>parse_completion JSON_parse ''{"recommendations": [{"title": "Dune"}, 7, null]}'' =
     [Decoded (JObj [(''title'', JStr ''Dune'')]), Decoded (JNum 7), Decoded JNull]\<close>
proof -
  let ?raw = \<open>''{"recommendations": [{"title": "Dune"}, 7, null]}''\<close>
  let ?items = "[JObj [(''title'', JStr ''Dune'')], JNum 7, JNull]"
  have decoded: "JSON_parse ?raw = Some (JObj [(''recommendations'', JArr ?items)])"
    by code_simp
  have field: "map_of [(''recommendations'', JArr ?items)] ''recommendations'' = Some (JArr ?items)"
    by simp
  have few: "length ?items \<le> 5"
    by simp
  have "parse_completion JSON_parse ?raw = map Decoded ?items"
    using structured_recommendations_unchanged
      [where jsonParse = JSON_parse and raw = "?raw" and items = "?items", OF decoded field few]
    by blast
  then show ?thesis
    by simp
qed

text \<open>
  C4. When the text decodes to a value that is neither an array nor an object whose
  \<^verbatim>\<open>recommendations\<close> is an array, the parse step returns what the fallback parser
  extracts from the text itself, and the caller gets an ordinary response with at most 5
  of these records, not an error. The request is one that reaches the completion service:
  it passes the validation and its books can be joined into the prompt.
\<close>

theorem unrecognized_shape_falls_back:
  assumes "jsonParse raw = Some parsed"
      and "\<forall>items. parsed \<noteq> JArr items"
      and "\<forall>props items. parsed = JObj props \<longrightarrow>
             map_of props ''recommendations'' \<noteq> Some (JArr items)"
      and "bs \<noteq> []" and "length bs \<le> 10" and "\<not> join_throws bs"
      and "create (RecommendBooks bs) = Choices (Some raw # others)"
  shows "parse_completion jsonParse raw = map Extracted (parseTextRecommendations raw)
     \<and> recommend_books jsonParse create (Some (JArr bs)) =
        ([RecommendBooks bs],
         Json \<lparr>inputBooks = bs,
               recommendations = take 5 (map Extracted (parseTextRecommendations raw))\<rparr>)"
proof -
  have "parse_completion jsonParse raw = map Extracted (parseTextRecommendations raw)"
    using assms(1-3) by (rule parse_completion_fallback)
  moreover have "recommend_books jsonParse create (Some (JArr bs)) =
      ([RecommendBooks bs],
       Json \<lparr>inputBooks = bs,
             recommendations = take 5 (parse_completion jsonParse (content_text (Some raw)))\<rparr>)"
    using assms(4-7) by (rule recommend_books_answer)
  ultimately show ?thesis
    by (simp add: content_text_def)
qed

theorem unrecognized_shape_falls_back_witness:
  \<open>recommend_books JSON_parse (\<lambda>request. Choices [Some ''"Title: Dune"''])
     (Some (JArr [JStr ''Emma''])) =
   ([RecommendBooks [JStr ''Emma'']],
    Json \<lparr>inputBooks = [JStr ''Emma''],
          recommendations =
            [Extracted \<lparr>title = Some ''"Dune"'', author = None, reason = None, genre = None\<rparr>]\<rparr>)\<close>
proof -
  let ?raw = \<open>''"Title: Dune"''\<close>
  let ?create = "\<lambda>request :: completion_request. Choices [Some ?raw]"
  have decoded: "JSON_parse ?raw = Some (JStr ''Title: Dune'')"
    by code_simp
  have extracted: \<open>parseTextRecommendations ?raw =
      [\<lparr>title = Some ''"Dune"'', author = None, reason = None, genre = None\<rparr>]\<close>
    by code_simp
  have shape: "\<forall>items. JStr ''Title: Dune'' \<noteq> JArr items"
    "\<forall>props items. JStr ''Title: Dune'' = JObj props \<longrightarrow>
       map_of props ''recommendations'' \<noteq> Some (JArr items)"
    by simp_all
  have books: "[JStr ''Emma''] \<noteq> []" "length [JStr ''Emma''] \<le> 10"
    "\<not> join_throws [JStr ''Emma'']"
    by (simp_all add: join_throws_def)
  have answer: "?create (RecommendBooks [JStr ''Emma'']) = Choices (Some ?raw # [])"
    by simp
  have "recommend_books JSON_parse ?create (Some (JArr [JStr ''Emma''])) =
      ([RecommendBooks [JStr ''Emma'']],
       Json \<lparr>inputBooks = [JStr ''Emma''],
             recommendations = take 5 (map Extracted (parseTextRecommendations ?raw))\<rparr>)"
    using unrecognized_shape_falls_back
      [where jsonParse = JSON_parse and raw = "?raw" and parsed = "JStr ''Title: Dune''"
         and bs = "[JStr ''Emma'']" and create = "?create" and others = "[]",
       OF decoded shape books answer]
    by blast
  then show ?thesis
    by (simp add: extracted)
qed

text \<open>
  C10. When the completion of a request that reached the service (it passed the
  validation and its books could be joined into the prompt) carries no text
  (\<^verbatim>\<open>null\<close> or the empty string), the handler takes the text to be the empty string;
  the decoder rejects it, the fallback parser
  finds no record in it, and the handler answers with an ordinary response whose
  recommendations are empty. That \<^verbatim>\<open>JSON.parse\<close> rejects the empty text is the one fact
  about the decoder that is used.
\<close>

theorem empty_completion_gives_no_recommendations:
  assumes "jsonParse [] = None"
      and "bs \<noteq> []" and "length bs \<le> 10" and "\<not> join_throws bs"
      and "create (RecommendBooks bs) = Choices (content # others)"
      and "content = None \<or> content = Some []"
  shows "content_text content = []
     \<and> decode_recommendations jsonParse (content_text content) = Inl SyntaxError
     \<and> parseTextRecommendations (content_text content) = []
     \<and> recommend_books jsonParse create (Some (JArr bs)) =
        ([RecommendBooks bs], Json \<lparr>inputBooks = bs, recommendations = []\<rparr>)"
proof -
  have empty: "content_text content = []"
    using assms(6) by (auto simp: content_text_def)
  have failed: "decode_recommendations jsonParse [] = Inl SyntaxError"
    using assms(1) by (simp add: decode_recommendations_def)
  have "parse_completion jsonParse [] = []"
    by (simp add: parse_completion_def failed parseTextRecommendations_Nil)
  moreover have "recommend_books jsonParse create (Some (JArr bs)) =
      ([RecommendBooks bs],
       Json \<lparr>inputBooks = bs,
             recommendations = take 5 (parse_completion jsonParse (content_text content))\<rparr>)"
    using assms(2-5) by (rule recommend_books_answer)
  ultimately show ?thesis
    by (simp add: empty failed parseTextRecommendations_Nil)
qed

theorem empty_completion_gives_no_recommendations_witness:
  "recommend_books JSON_parse (\<lambda>request. Choices [None]) (Some (JArr [JStr ''Dune''])) =
     ([RecommendBooks [JStr ''Dune'']], Json \<lparr>inputBooks = [JStr ''Dune''], recommendations = []\<rparr>)
   \<and> recommend_books JSON_parse (\<lambda>request. Choices [Some []]) (Some (JArr [JStr ''Dune''])) =
     ([RecommendBooks [JStr ''Dune'']], Json \<lparr>inputBooks = [JStr ''Dune''], recommendations = []\<rparr>)"
proof -
  have rejected: "JSON_parse [] = None"
    by code_simp
  have books: "[JStr ''Dune''] \<noteq> []" "length [JStr ''Dune''] \<le> 10"
    "\<not> join_throws [JStr ''Dune'']"
    by (simp_all add: join_throws_def)
  have "(\<lambda>request :: completion_request. Choices [None]) (RecommendBooks [JStr ''Dune'']) =
      Choices (None # [])"
    by simp
  then have absent: "recommend_books JSON_parse (\<lambda>request. Choices [None])
      (Some (JArr [JStr ''Dune''])) =
      ([RecommendBooks [JStr ''Dune'']], Json \<lparr>inputBooks = [JStr ''Dune''], recommendations = []\<rparr>)"
    using empty_completion_gives_no_recommendations
      [where jsonParse = JSON_parse and bs = "[JStr ''Dune'']" and content = None
         and create = "\<lambda>request. Choices [None]" and others = "[]", OF rejected books]
    by blast
  have "(\<lambda>request :: completion_request. Choices [Some []]) (RecommendBooks [JStr ''Dune'']) =
      Choices (Some [] # [])"
    by simp
  then have "recommend_books JSON_parse (\<lambda>request. Choices [Some []])
      (Some (JArr [JStr ''Dune''])) =
      ([RecommendBooks [JStr ''Dune'']], Json \<lparr>inputBooks = [JStr ''Dune''], recommendations = []\<rparr>)"
    using empty_completion_gives_no_recommendations
      [where jsonParse = JSON_parse and bs = "[JStr ''Dune'']" and content = "Some []"
         and create = "\<lambda>request. Choices [Some []]" and others = "[]", OF rejected books]
    by blast
  with absent show ?thesis
    by blast
qed

end
